theory Spec2Isabelle
  imports Main
begin

section \<open>The resilience module (resilience.ts)\<close>

text \<open>
  The module wraps an ordered list of handlers of one tool: handlers are tried in order,
  failures are counted per handler in a JSON file, a handler with
  \<open>FAILURE_THRESHOLD\<close> failures is marked degraded, and an alert is POSTed to a webhook.

  The embedding is a state-passing one. Everything outside the module is a field of the
  record \<open>world\<close>: the health file, the data directory, the outcome of the file-system
  and network operations still to come, the clock and a trace of the observable events
  (handler invocations, writes, alert requests, log lines). A function of the module that
  can throw returns \<open>(thrown + 'a) \<times> world\<close>: \<open>Inl\<close> is the exception, and the world
  is returned in both cases, since the effects made before a throw stay. An \<open>await\<close> is
  sequential composition: the code after it runs in the world in which the awaited promise
  has settled.
\<close>

subsection \<open>Config\<close>

text \<open>
  \<open>N8N_ALERT_WEBHOOK_URL\<close> and \<open>SERVER_URL\<close> are read from the environment when the
  module is loaded (the empty string when unset); they are the fields of \<open>config\<close>.
  \<open>DATA_DIR\<close> and \<open>HEALTH_FILE\<close> name the one directory and the one file of \<open>world\<close>.
\<close>

record config =
  N8N_ALERT_WEBHOOK_URL :: string
  SERVER_URL :: string

definition FAILURE_THRESHOLD :: int where
  "FAILURE_THRESHOLD = 3"

subsection \<open>Types\<close>

text \<open>
  \<open>interface HandlerHealth { failures: number; degraded: boolean; lastError?: string;
  lastFailure?: string }\<close> and \<open>type HealthState = Record<string, HandlerHealth>\<close>.
\<close>

record HandlerHealth =
  failures :: int
  degraded :: bool
  lastError :: "string option"
  lastFailure :: "string option"

type_synonym HealthState = "string \<rightharpoonup> HandlerHealth"

text \<open>
  The wrapper asks one thing of a thrown value, its message:
  \<open>err instanceof Error ? err.message : String(err)\<close>. A thrown value is an \<open>Error\<close>
  object with its \<open>message\<close>, a string; or a value that is not an \<open>Error\<close>, with the
  string \<open>String(err)\<close> makes of it; or a value from which no message can be had:
  \<open>Unprintable t\<close> is a value for which that expression throws \<open>t\<close>, such as an object
  created with \<open>Object.create(null)\<close>, for which \<open>String\<close> throws a \<open>TypeError\<close>.
\<close>

datatype thrown = Error string | NonError string | Unprintable thrown

text \<open>
  What a handler resolves with has type \<open>unknown\<close>. The wrapper only asks whether it is
  a string and otherwise calls \<open>JSON.stringify(result, null, 2)\<close>, which yields a text
  or throws (a BigInt, a circular structure): a non-string value carries that outcome.
  For a value such as \<open>undefined\<close>, where \<open>JSON.stringify\<close> returns no string, the
  outcome is the text the envelope then shows.
\<close>

datatype jsvalue = JsString string | JsOther "thrown + string"

datatype outcome = Resolves jsvalue | Rejects thrown

text \<open>
  \<open>interface Handler<T> { name: string; fn: (args: T) => Promise<unknown> }\<close>. A handler
  is invoked at most once in a call of the wrapper, so \<open>fn\<close> gives the outcome of that
  one invocation.
\<close>

record 'a Handler =
  name :: string
  fn :: "'a \<Rightarrow> outcome"

text \<open>
  \<open>interface McpContent { content: Array<{ type: "text"; text: string }> }\<close>: the list of
  the \<open>text\<close> fields.
\<close>

datatype McpContent = McpContent (content: "string list")

text \<open>The body of the alert POSTed to the webhook.\<close>

record alert =
  tool :: string
  error :: string
  failureCount :: int
  timestamp :: string
  serverUrl :: string

datatype event =
    Invoked string
  | Mkdir
  | Wrote
  | FetchSent alert
  | FetchSettled bool
  | ConsoleError string

text \<open>
  \<open>health_file\<close> is the parsed content of \<open>HEALTH_FILE\<close>, \<open>None\<close> when the file is
  missing or is not JSON. The code casts what it parses to \<open>HealthState\<close>, and so does
  the model: a file that holds JSON of another shape (\<open>null\<close>, a number, records that are
  not objects) is not a \<open>world\<close>, and what the code does with such a file is not
  described here. \<open>fs_faults\<close> and \<open>fetch_faults\<close> script the operations to
  come: each \<open>mkdirSync\<close> or \<open>writeFileSync\<close> (each \<open>fetch\<close>) takes the head of the
  list, \<open>Some msg\<close> makes it throw \<open>Error msg\<close> and leave the disk as it is, \<open>None\<close> or
  an exhausted list lets it succeed. \<open>now\<close> is what \<open>new Date().toISOString()\<close>
  returns. \<open>trace\<close> is not state of the program: it records, in order, the handler
  invocations, the directory creations and file writes that succeeded, the requests sent
  to the webhook with the way each settled, and the lines written by \<open>console.error\<close>.
\<close>

record world =
  health_file :: "HealthState option"
  data_dir_exists :: bool
  fs_faults :: "string option list"
  fetch_faults :: "string option list"
  now :: string
  trace :: "event list"

definition log_event :: "event \<Rightarrow> world \<Rightarrow> world" where
  "log_event e w = w\<lparr>trace := trace w @ [e]\<rparr>"

subsection \<open>State persistence\<close>

definition mkdirSync :: "world \<Rightarrow> (thrown + unit) \<times> world" where
  "mkdirSync w =
     (case fs_faults w of
        Some msg # rest \<Rightarrow> (Inl (Error msg), w\<lparr>fs_faults := rest\<rparr>)
      | None # rest \<Rightarrow> (Inr (), log_event Mkdir (w\<lparr>fs_faults := rest, data_dir_exists := True\<rparr>))
      | [] \<Rightarrow> (Inr (), log_event Mkdir (w\<lparr>data_dir_exists := True\<rparr>)))"

definition writeFileSync :: "HealthState \<Rightarrow> world \<Rightarrow> (thrown + unit) \<times> world" where
  "writeFileSync state w =
     (case fs_faults w of
        Some msg # rest \<Rightarrow> (Inl (Error msg), w\<lparr>fs_faults := rest\<rparr>)
      | None # rest \<Rightarrow> (Inr (), log_event Wrote (w\<lparr>fs_faults := rest, health_file := Some state\<rparr>))
      | [] \<Rightarrow> (Inr (), log_event Wrote (w\<lparr>health_file := Some state\<rparr>)))"

definition ensureDataDir :: "world \<Rightarrow> (thrown + unit) \<times> world" where
  "ensureDataDir w = (if \<not> data_dir_exists w then mkdirSync w else (Inr (), w))"

definition loadHealth :: "world \<Rightarrow> HealthState" where
  "loadHealth w = (case health_file w of Some state \<Rightarrow> state | None \<Rightarrow> Map.empty)"

definition saveHealth :: "HealthState \<Rightarrow> world \<Rightarrow> (thrown + unit) \<times> world" where
  "saveHealth state w =
     (case ensureDataDir w of
        (Inl err, w1) \<Rightarrow> (Inl err, w1)
      | (Inr _, w1) \<Rightarrow> writeFileSync state w1)"

subsection \<open>Health helpers\<close>

definition healthy :: HandlerHealth where
  "healthy = \<lparr>failures = 0, degraded = False, lastError = None, lastFailure = None\<rparr>"

definition health_key :: "string \<Rightarrow> string \<Rightarrow> string" where
  "health_key toolName handlerName = toolName @ '':'' @ handlerName"

definition getHandler :: "HealthState \<Rightarrow> string \<Rightarrow> HandlerHealth" where
  "getHandler state key = (case state key of Some h \<Rightarrow> h | None \<Rightarrow> healthy)"

definition recordSuccess :: "string \<Rightarrow> string \<Rightarrow> world \<Rightarrow> (thrown + unit) \<times> world" where
  "recordSuccess toolName handlerName w =
     (let key = health_key toolName handlerName;
          state = loadHealth w
      in saveHealth (state(key \<mapsto> healthy)) w)"

text \<open>
  Lines 94 to 99 of \<open>recordFailure\<close>, on the record \<open>h\<close> it has read: the counter is
  incremented, the error and the time are stored, and the record is marked degraded when
  the counter has reached the threshold.
\<close>

definition count_failure :: "string \<Rightarrow> string \<Rightarrow> HandlerHealth \<Rightarrow> HandlerHealth" where
  "count_failure err ts h0 =
     (let h1 = h0\<lparr>failures := failures h0 + 1, lastError := Some err, lastFailure := Some ts\<rparr>
      in if failures h1 \<ge> FAILURE_THRESHOLD then h1\<lparr>degraded := True\<rparr> else h1)"

definition recordFailure :: "string \<Rightarrow> string \<Rightarrow> string \<Rightarrow> world \<Rightarrow> (thrown + bool) \<times> world" where
  "recordFailure toolName handlerName err w =
     (let key = health_key toolName handlerName;
          state = loadHealth w;
          h = count_failure err (now w) (getHandler state key)
      in case saveHealth (state(key \<mapsto> h)) w of
           (Inl e, w1) \<Rightarrow> (Inl e, w1)
         | (Inr _, w1) \<Rightarrow> (Inr (degraded h), w1))"

definition isDegraded :: "string \<Rightarrow> string \<Rightarrow> world \<Rightarrow> bool" where
  "isDegraded toolName handlerName w =
     degraded (getHandler (loadHealth w) (health_key toolName handlerName))"

definition resetTool :: "string \<Rightarrow> string \<Rightarrow> world \<Rightarrow> (thrown + unit) \<times> world" where
  "resetTool toolName handlerName w =
     (let key = health_key toolName handlerName;
          state = loadHealth w
      in saveHealth (state(key \<mapsto> healthy)) w)"

subsection \<open>N8n alerting\<close>

definition fetch :: "alert \<Rightarrow> world \<Rightarrow> (thrown + unit) \<times> world" where
  "fetch body w =
     (let w1 = log_event (FetchSent body) w
      in case fetch_faults w1 of
           Some msg # rest \<Rightarrow> (Inl (Error msg), log_event (FetchSettled False) (w1\<lparr>fetch_faults := rest\<rparr>))
         | None # rest \<Rightarrow> (Inr (), log_event (FetchSettled True) (w1\<lparr>fetch_faults := rest\<rparr>))
         | [] \<Rightarrow> (Inr (), log_event (FetchSettled True) w1))"

text \<open>
  \<open>err instanceof Error ? err.message : String(err)\<close>, which can throw. The line that
  \<open>console.error\<close> prints needs no conversion by \<open>String\<close>: \<open>console_text\<close> is the
  text it shows for the value, the message where there is one.
\<close>

definition message_of :: "thrown \<Rightarrow> thrown + string" where
  "message_of err = (case err of Error m \<Rightarrow> Inr m | NonError s \<Rightarrow> Inr s | Unprintable t \<Rightarrow> Inl t)"

definition console_text :: "thrown \<Rightarrow> string" where
  "console_text err = (case err of Error m \<Rightarrow> m | NonError s \<Rightarrow> s | Unprintable t \<Rightarrow> ''{}'')"

definition alertN8n :: "config \<Rightarrow> string \<Rightarrow> string \<Rightarrow> int \<Rightarrow> world \<Rightarrow> (thrown + unit) \<times> world" where
  "alertN8n cfg toolKey err cnt w =
     (if N8N_ALERT_WEBHOOK_URL cfg = [] then (Inr (), w)
      else
        (case fetch \<lparr>tool = toolKey, error = err, failureCount = cnt,
                     timestamp = now w, serverUrl = SERVER_URL cfg\<rparr> w of
           (Inr _, w1) \<Rightarrow> (Inr (), w1)
         | (Inl e, w1) \<Rightarrow>
             (Inr (), log_event (ConsoleError (''[resilience] Failed to alert n8n: '' @ console_text e)) w1)))"

subsection \<open>Core wrapper\<close>

definition dquote :: string where
  "dquote = [CHR 0x22]"

text \<open>The em dash of the source text, in UTF-8.\<close>

definition em_dash :: string where
  "em_dash = [CHR 0xE2, CHR 0x80, CHR 0x94]"

definition text_content :: "string \<Rightarrow> McpContent" where
  "text_content t = McpContent [t]"

definition disabled_text :: "string \<Rightarrow> string" where
  "disabled_text toolName =
     ''[DISABLED] Tool '' @ dquote @ toolName @ dquote @ '' is temporarily disabled '' @ em_dash @
     '' all handlers are degraded. Use resetTool() to re-enable.''"

definition error_line :: "string \<Rightarrow> string \<Rightarrow> string" where
  "error_line toolName errorText =
     ''[ERROR] Tool '' @ dquote @ toolName @ dquote @ '' failed: '' @ errorText"

text \<open>
  Lines 231 to 239: the text of the last error, \<open>String(undefined)\<close> when there is none,
  and the \<open>[ERROR]\<close> line made of it; \<open>Inl\<close> when the conversion throws.
\<close>

definition error_text :: "string \<Rightarrow> thrown option \<Rightarrow> thrown + string" where
  "error_text toolName lastErr =
     (case lastErr of
        None \<Rightarrow> Inr (error_line toolName ''undefined'')
      | Some err \<Rightarrow>
          (case message_of err of
             Inl e \<Rightarrow> Inl e
           | Inr errorText \<Rightarrow> Inr (error_line toolName errorText)))"

definition render :: "jsvalue \<Rightarrow> thrown + string" where
  "render result = (case result of JsString s \<Rightarrow> Inr s | JsOther r \<Rightarrow> r)"

text \<open>
  The \<open>try\<close> block of the loop body: the handler is invoked; when it resolves, the
  success is recorded and the result rendered. \<open>Inl\<close> is what the \<open>catch\<close> receives.
\<close>

definition try_handler :: "string \<Rightarrow> 'a Handler \<Rightarrow> 'a \<Rightarrow> world \<Rightarrow> (thrown + McpContent) \<times> world" where
  "try_handler toolName handler args w =
     (let w1 = log_event (Invoked (name handler)) w
      in case fn handler args of
           Rejects err \<Rightarrow> (Inl err, w1)
         | Resolves result \<Rightarrow>
             (case recordSuccess toolName (name handler) w1 of
                (Inl err, w2) \<Rightarrow> (Inl err, w2)
              | (Inr _, w2) \<Rightarrow>
                  (case render result of
                     Inl err \<Rightarrow> (Inl err, w2)
                   | Inr txt \<Rightarrow> (Inr (text_content txt), w2))))"

text \<open>
  The \<open>catch\<close> block: \<open>Inl\<close> when the conversion of the caught value to its message
  throws, or when \<open>recordFailure\<close> throws, which nothing catches; otherwise the loop
  goes on.
\<close>

definition catch_handler :: "config \<Rightarrow> string \<Rightarrow> 'a Handler \<Rightarrow> thrown \<Rightarrow> world \<Rightarrow> (thrown + unit) \<times> world" where
  "catch_handler cfg toolName handler err w =
     (case message_of err of
        Inl e \<Rightarrow> (Inl e, w)
      | Inr errorMsg \<Rightarrow>
          (case recordFailure toolName (name handler) errorMsg w of
             (Inl e, w1) \<Rightarrow> (Inl e, w1)
           | (Inr nowDegraded, w1) \<Rightarrow>
               (if nowDegraded
                then alertN8n cfg (health_key toolName (name handler)) errorMsg FAILURE_THRESHOLD w1
                else (Inr (), w1))))"

function handler_loop ::
  "config \<Rightarrow> string \<Rightarrow> 'a Handler list \<Rightarrow> 'a \<Rightarrow> HealthState \<Rightarrow> nat \<Rightarrow> thrown option \<Rightarrow> world
   \<Rightarrow> (thrown + McpContent) \<times> world" where
  "handler_loop cfg toolName handlers args state i lastErr w =
     (if i < length handlers then
        (let handler = handlers ! i;
             key = health_key toolName (name handler);
             health = getHandler state key;
             hasFallback = (int i < int (length handlers) - 1)
         in if degraded health \<and> hasFallback
            then handler_loop cfg toolName handlers args state (i + 1) lastErr w
            else
              (case try_handler toolName handler args w of
                 (Inr res, w1) \<Rightarrow> (Inr res, w1)
               | (Inl err, w1) \<Rightarrow>
                   (case catch_handler cfg toolName handler err w1 of
                      (Inl e, w2) \<Rightarrow> (Inl e, w2)
                    | (Inr _, w2) \<Rightarrow>
                        handler_loop cfg toolName handlers args state (i + 1) (Some err) w2)))
      else
        (case error_text toolName lastErr of
           Inl e \<Rightarrow> (Inl e, w)
         | Inr errorLine \<Rightarrow> (Inr (text_content errorLine), w)))"
  by pat_completeness auto
termination
  by (relation "measure (\<lambda>(cfg, toolName, handlers, args, state, i, lastErr, w). length handlers - i)") auto

declare handler_loop.simps [simp del]

definition withResilience ::
  "config \<Rightarrow> string \<Rightarrow> 'a Handler list \<Rightarrow> 'a \<Rightarrow> world \<Rightarrow> (thrown + McpContent) \<times> world" where
  "withResilience cfg toolName handlers args w =
     (let state = loadHealth w;
          allDegraded = list_all (\<lambda>h. degraded (getHandler state (health_key toolName (name h)))) handlers
      in if allDegraded then (Inr (text_content (disabled_text toolName)), w)
         else handler_loop cfg toolName handlers args state 0 None w)"

subsection \<open>Observations on a run\<close>

text \<open>The events a run has added to the trace, and the handlers invoked among them.\<close>

definition new_events :: "world \<Rightarrow> world \<Rightarrow> event list" where
  "new_events w w' = drop (length (trace w)) (trace w')"

fun invoked_names :: "event list \<Rightarrow> string list" where
  "invoked_names [] = []"
| "invoked_names (Invoked n # es) = n # invoked_names es"
| "invoked_names (e # es) = invoked_names es"

fun alerts_sent :: "event list \<Rightarrow> alert list" where
  "alerts_sent [] = []"
| "alerts_sent (FetchSent a # es) = a # alerts_sent es"
| "alerts_sent (e # es) = alerts_sent es"

text \<open>
  Every alert request is settled before anything else happens: each \<open>FetchSent\<close> is
  directly followed by its \<open>FetchSettled\<close>.
\<close>

fun settled_inline :: "event list \<Rightarrow> bool" where
  "settled_inline [] = True"
| "settled_inline (FetchSent a # FetchSettled b # es) = settled_inline es"
| "settled_inline (FetchSent a # es) = False"
| "settled_inline (FetchSettled b # es) = False"
| "settled_inline (e # es) = settled_inline es"

text \<open>
  \<open>save_succeeds w\<close>: the next \<open>saveHealth\<close> in \<open>w\<close> meets no fault (the
  \<open>mkdirSync\<close>, when the directory is missing, and the \<open>writeFileSync\<close>).
  \<open>fs_reliable w\<close>: no file-system fault is scripted at all.
\<close>

definition save_succeeds :: "world \<Rightarrow> bool" where
  "save_succeeds w =
     (if data_dir_exists w then list_all (\<lambda>f. f = None) (take 1 (fs_faults w))
      else list_all (\<lambda>f. f = None) (take 2 (fs_faults w)))"

definition fs_reliable :: "world \<Rightarrow> bool" where
  "fs_reliable w = list_all (\<lambda>f. f = None) (fs_faults w)"



text \<open>
  Two calls in a row, \<open>resetTool(t, h); resetTool(t, h)\<close>: the second runs when the
  first has returned.
\<close>

definition resetTool_twice :: "string \<Rightarrow> string \<Rightarrow> world \<Rightarrow> (thrown + unit) \<times> world" where
  "resetTool_twice toolName handlerName w =
     (case resetTool toolName handlerName w of
        (Inl e, w1) \<Rightarrow> (Inl e, w1)
      | (Inr _, w1) \<Rightarrow> resetTool toolName handlerName w1)"

text \<open>
  A run of consecutive failures of one handler, with no success in between: the world
  after \<open>recordFailure\<close> has been called once for each error message, and the alert
  decisions (\<open>nowDegraded\<close>) it returned; a call that throws returns none.
\<close>

fun failure_run :: "string \<Rightarrow> string \<Rightarrow> string list \<Rightarrow> world \<Rightarrow> bool list \<times> world" where
  "failure_run toolName handlerName [] w = ([], w)"
| "failure_run toolName handlerName (err # errs) w =
     (case recordFailure toolName handlerName err w of
        (Inl e, w1) \<Rightarrow> failure_run toolName handlerName errs w1
      | (Inr nowDegraded, w1) \<Rightarrow>
          (case failure_run toolName handlerName errs w1 of
             (flags, w2) \<Rightarrow> (nowDegraded # flags, w2)))"

subsection \<open>Example inputs\<close>

definition cfg0 :: config where
  "cfg0 = \<lparr>N8N_ALERT_WEBHOOK_URL = ''http://n8n/hook'', SERVER_URL = ''http://srv''\<rparr>"

definition succeeding :: "string \<Rightarrow> string \<Rightarrow> unit Handler" where
  "succeeding n r = \<lparr>name = n, fn = (\<lambda>_. Resolves (JsString r))\<rparr>"

definition failing :: "string \<Rightarrow> string \<Rightarrow> unit Handler" where
  "failing n m = \<lparr>name = n, fn = (\<lambda>_. Rejects (Error m))\<rparr>"


definition stored :: "int \<Rightarrow> bool \<Rightarrow> HandlerHealth" where
  "stored n d = \<lparr>failures = n, degraded = d, lastError = Some ''boom'', lastFailure = Some ''t0''\<rparr>"

text \<open>
  A world whose health file holds the given records, with the data directory present,
  the given file-system and network faults to come, and an empty trace.
\<close>

definition disk :: "(string \<times> HandlerHealth) list \<Rightarrow> string option list \<Rightarrow> string option list \<Rightarrow> world" where
  "disk recs ff nf =
     \<lparr>health_file = Some (map_of recs), data_dir_exists = True, fs_faults = ff,
      fetch_faults = nf, now = ''2026-01-01T00:00:00.000Z'', trace = []\<rparr>"

definition sole_degraded_disk :: world where
  "sole_degraded_disk = disk [(''t:a'', stored 3 True)] [] []"

definition skip_handlers :: "unit Handler list" where
  "skip_handlers = [succeeding ''a'' ''ra'', failing ''b'' ''eb'', succeeding ''c'' ''rc'']"

definition skip_disk :: world where
  "skip_disk = disk [(''t:a'', stored 3 True), (''t:c'', stored 4 True)] [] []"

definition unrenderable :: "string \<Rightarrow> string \<Rightarrow> unit Handler" where
  "unrenderable n m = \<lparr>name = n, fn = (\<lambda>_. Resolves (JsOther (Inl (Error m))))\<rparr>"

definition first_handlers :: "unit Handler list" where
  "first_handlers = [failing ''a'' ''ea'', succeeding ''b'' ''rb'', succeeding ''c'' ''rc'']"

definition two_ok :: "unit Handler list" where
  "two_ok = [succeeding ''a'' ''ra'', succeeding ''b'' ''rb'']"

definition bigint_then_ok :: "unit Handler list" where
  "bigint_then_ok = [unrenderable ''a'' ''Do not know how to serialize a BigInt'', succeeding ''b'' ''rb'']"

definition await_disk :: world where
  "await_disk = disk [(''t:a'', stored 2 False)] [] [Some ''ECONNREFUSED'']"

definition await_handlers :: "unit Handler list" where
  "await_handlers = [failing ''a'' ''ea'', succeeding ''b'' ''rb'']"

definition no_webhook :: config where
  "no_webhook = \<lparr>N8N_ALERT_WEBHOOK_URL = [], SERVER_URL = ''http://srv''\<rparr>"

definition realert_disk :: world where
  "realert_disk = disk [(''t:b'', stored 2 False)] [] []"

definition realert_handlers :: "unit Handler list" where
  "realert_handlers = [failing ''a'' ''ea'', failing ''b'' ''eb'']"

text \<open>Two calls of the wrapper in a row, both handlers failing in each.\<close>

definition realert_run :: world where
  "realert_run =
     snd (withResilience cfg0 ''t'' realert_handlers ()
       (snd (withResilience cfg0 ''t'' realert_handlers () realert_disk)))"

section \<open>Properties\<close>

lemmas fs_defs = saveHealth_def ensureDataDir_def mkdirSync_def writeFileSync_def log_event_def

subsection \<open>The file system\<close>

lemma saveHealth_trace:
  "\<exists>es. trace (snd (saveHealth s w)) = trace w @ es \<and> set es \<subseteq> {Mkdir, Wrote}"
  by (auto simp: fs_defs split: list.splits option.splits if_splits)

lemma saveHealth_file:
  "health_file (snd (saveHealth s w)) = (if fst (saveHealth s w) = Inr () then Some s else health_file w)"
  by (auto simp: fs_defs split: list.splits option.splits if_splits)

lemma saveHealth_ok_iff: "fst (saveHealth s w) = Inr () \<longleftrightarrow> save_succeeds w"
  by (cases "data_dir_exists w") (auto simp: fs_defs save_succeeds_def split: list.splits option.splits if_splits)

lemma saveHealth_reliable:
  "fs_reliable w \<Longrightarrow> fst (saveHealth s w) = Inr () \<and> fs_reliable (snd (saveHealth s w))"
  by (auto simp: fs_defs fs_reliable_def split: list.splits option.splits if_splits)

lemma saveHealth_wrote:
  "fst (saveHealth s w) = Inr () \<Longrightarrow> Wrote \<in> set (new_events w (snd (saveHealth s w)))"
  by (auto simp: fs_defs new_events_def split: list.splits option.splits if_splits)

subsection \<open>Traces\<close>

lemma settled_inline_append:
  "settled_inline xs \<Longrightarrow> settled_inline ys \<Longrightarrow> settled_inline (xs @ ys)"
  by (induction xs rule: settled_inline.induct) auto

lemma fs_events_quiet:
  "set es \<subseteq> {Mkdir, Wrote} \<Longrightarrow> invoked_names es = [] \<and> alerts_sent es = [] \<and> settled_inline es"
  by (induction es) auto

lemma invoked_names_append: "invoked_names (xs @ ys) = invoked_names xs @ invoked_names ys"
  by (induction xs rule: invoked_names.induct) auto

lemma new_events_append: "trace w' = trace w @ es \<Longrightarrow> new_events w w' = es"
  by (simp add: new_events_def)

subsection \<open>What each operation adds to the trace\<close>

lemma recordSuccess_trace:
  "\<exists>es. trace (snd (recordSuccess t n w)) = trace w @ es \<and> set es \<subseteq> {Mkdir, Wrote}"
  unfolding recordSuccess_def Let_def by (rule saveHealth_trace)

lemma recordFailure_snd:
  "snd (recordFailure t n e w) =
     snd (saveHealth ((loadHealth w)(health_key t n \<mapsto>
            count_failure e (now w) (getHandler (loadHealth w) (health_key t n)))) w)"
  by (auto simp: recordFailure_def Let_def split: prod.splits sum.splits)


lemma recordFailure_trace:
  "\<exists>es. trace (snd (recordFailure t n e w)) = trace w @ es \<and> set es \<subseteq> {Mkdir, Wrote}"
  unfolding recordFailure_snd by (rule saveHealth_trace)

lemma alertN8n_never_throws: "fst (alertN8n cfg k e c w) = Inr ()"
  by (auto simp: alertN8n_def split: prod.splits sum.splits)

lemma fetch_trace:
  "trace (snd (fetch body w)) = trace w @ [FetchSent body, FetchSettled (fst (fetch body w) = Inr ())]"
  by (auto simp: fetch_def Let_def log_event_def split: list.splits option.splits)

lemma alertN8n_events:
  "trace (snd (alertN8n cfg k e c w)) = trace w @
     (if N8N_ALERT_WEBHOOK_URL cfg = [] then []
      else (let body = \<lparr>tool = k, error = e, failureCount = c, timestamp = now w, serverUrl = SERVER_URL cfg\<rparr>
            in case fst (fetch body w) of
                 Inr _ \<Rightarrow> [FetchSent body, FetchSettled True]
               | Inl err \<Rightarrow> [FetchSent body, FetchSettled False,
                    ConsoleError (''[resilience] Failed to alert n8n: '' @ console_text err)]))"
proof -
  let ?body = "\<lparr>tool = k, error = e, failureCount = c, timestamp = now w, serverUrl = SERVER_URL cfg\<rparr>"
  obtain r w1 where r: "fetch ?body w = (r, w1)" by (cases "fetch ?body w")
  with fetch_trace[of ?body w] show ?thesis
    by (cases r) (auto simp: alertN8n_def log_event_def)
qed

lemma alertN8n_trace:
  "\<exists>es. trace (snd (alertN8n cfg k e c w)) = trace w @ es \<and> invoked_names es = [] \<and> settled_inline es"
  unfolding alertN8n_events by (auto simp: Let_def split: sum.splits)

lemma try_handler_trace:
  "\<exists>es. trace (snd (try_handler t h a w)) = trace w @ Invoked (name h) # es \<and> set es \<subseteq> {Mkdir, Wrote}"
proof (cases "fn h a")
  case (Rejects err)
  then show ?thesis by (simp add: try_handler_def log_event_def)
next
  case (Resolves v)
  obtain es where es: "trace (snd (recordSuccess t (name h) (log_event (Invoked (name h)) w)))
      = trace (log_event (Invoked (name h)) w) @ es" "set es \<subseteq> {Mkdir, Wrote}"
    using recordSuccess_trace by blast
  with Resolves show ?thesis
    by (auto simp: try_handler_def log_event_def split: prod.splits sum.splits)
qed

lemma catch_handler_trace:
  "\<exists>es. trace (snd (catch_handler cfg t h err w)) = trace w @ es \<and> invoked_names es = [] \<and> settled_inline es"
proof (cases "message_of err")
  case (Inl e)
  then show ?thesis by (simp add: catch_handler_def)
next
  case (Inr msg)
  obtain es where es: "trace (snd (recordFailure t (name h) msg w)) = trace w @ es"
      "set es \<subseteq> {Mkdir, Wrote}"
    using recordFailure_trace by blast
  obtain r w1 where r: "recordFailure t (name h) msg w = (r, w1)"
    by (cases "recordFailure t (name h) msg w")
  obtain es' where es': "trace (snd (alertN8n cfg (health_key t (name h)) msg FAILURE_THRESHOLD w1)) = trace w1 @ es'"
      "invoked_names es' = []" "settled_inline es'"
    using alertN8n_trace by blast
  from Inr es r es' fs_events_quiet[OF es(2)] show ?thesis
    by (cases r) (auto simp: catch_handler_def invoked_names_append settled_inline_append)
qed

subsection \<open>Unfolding sets for concrete runs\<close>

lemmas example_defs = cfg0_def succeeding_def failing_def stored_def disk_def
lemmas facade_defs = withResilience_def loadHealth_def getHandler_def health_key_def healthy_def
  try_handler_def catch_handler_def recordSuccess_def recordFailure_def count_failure_def
  alertN8n_def fetch_def message_of_def console_text_def error_text_def error_line_def render_def
  text_content_def FAILURE_THRESHOLD_def
  saveHealth_def ensureDataDir_def mkdirSync_def writeFileSync_def log_event_def

lemma handler_loop_exhausted:
  "length handlers \<le> i \<Longrightarrow>
   handler_loop cfg toolName handlers args state i lastErr w =
     (case error_text toolName lastErr of
        Inl e \<Rightarrow> (Inl e, w)
      | Inr errorLine \<Rightarrow> (Inr (text_content errorLine), w))"
  by (subst handler_loop.simps) simp

subsection \<open>One iteration of the loop\<close>

lemma handler_loop_attempt:
  assumes "i < length hs"
    and "\<not> (degraded (getHandler st (health_key t (name (hs ! i)))) \<and> int i < int (length hs) - 1)"
  shows "handler_loop cfg t hs a st i le w =
     (case try_handler t (hs ! i) a w of
        (Inr res, w1) \<Rightarrow> (Inr res, w1)
      | (Inl err, w1) \<Rightarrow>
          (case catch_handler cfg t (hs ! i) err w1 of
             (Inl e, w2) \<Rightarrow> (Inl e, w2)
           | (Inr _, w2) \<Rightarrow> handler_loop cfg t hs a st (i + 1) (Some err) w2))"
  using assms by (subst handler_loop.simps) (auto simp: Let_def)

lemma handler_loop_skip:
  assumes "i < length hs"
    and "degraded (getHandler st (health_key t (name (hs ! i))))" and "int i < int (length hs) - 1"
  shows "handler_loop cfg t hs a st i le w = handler_loop cfg t hs a st (i + 1) le w"
  using assms by (subst handler_loop.simps) (simp add: Let_def)

lemma handler_loop_last_trace:
  assumes "i + 1 = length hs"
  shows "\<exists>es. trace (snd (handler_loop cfg t hs a st i le w)) = trace w @ Invoked (name (hs ! i)) # es
           \<and> invoked_names es = []"
proof -
  from assms have i: "i < length hs" and last: "\<not> (degraded (getHandler st (health_key t (name (hs ! i)))) \<and> int i < int (length hs) - 1)"
    by auto
  obtain r w1 where tr: "try_handler t (hs ! i) a w = (r, w1)" by (cases "try_handler t (hs ! i) a w")
  obtain es where es: "trace w1 = trace w @ Invoked (name (hs ! i)) # es" "set es \<subseteq> {Mkdir, Wrote}"
    using try_handler_trace[of t "hs ! i" a w] tr by auto
  show ?thesis
  proof (cases r)
    case (Inr res)
    with tr es fs_events_quiet[OF es(2)] show ?thesis
      by (simp add: handler_loop_attempt[OF i last])
  next
    case (Inl err)
    obtain r2 w2 where ca: "catch_handler cfg t (hs ! i) err w1 = (r2, w2)"
      by (cases "catch_handler cfg t (hs ! i) err w1")
    obtain es2 where es2: "trace w2 = trace w1 @ es2" "invoked_names es2 = []"
      using catch_handler_trace[of cfg t "hs ! i" err w1] ca by auto
    from assms have fin: "length hs \<le> Suc i" by simp
    from Inl tr ca es es2 fs_events_quiet[OF es(2)] show ?thesis
      by (cases r2)
        (simp_all add: handler_loop_attempt[OF i last] handler_loop_exhausted[OF fin] invoked_names_append
          split: sum.splits)
  qed
qed

subsection \<open>Health records after an operation\<close>

lemma resetTool_eq:
  "resetTool t n w = saveHealth ((loadHealth w)(health_key t n \<mapsto> healthy)) w"
  by (simp add: resetTool_def Let_def)

lemma loadHealth_after_save:
  "loadHealth (snd (saveHealth s w)) = (if fst (saveHealth s w) = Inr () then s else loadHealth w)"
  by (simp add: loadHealth_def saveHealth_file)

lemma recordFailure_health:
  "getHandler (loadHealth (snd (recordFailure t n e w))) (health_key t n) =
     (if save_succeeds w then count_failure e (now w) (getHandler (loadHealth w) (health_key t n))
      else getHandler (loadHealth w) (health_key t n))"
  by (simp add: recordFailure_snd loadHealth_after_save saveHealth_ok_iff getHandler_def)

lemma recordFailure_reliable:
  "fs_reliable w \<Longrightarrow> save_succeeds w \<and> fs_reliable (snd (recordFailure t n e w))"
  using saveHealth_reliable saveHealth_ok_iff by (simp add: recordFailure_snd)

lemma count_failure_fields:
  "failures (count_failure e ts h) = failures h + 1
   \<and> degraded (count_failure e ts h) = (degraded h \<or> FAILURE_THRESHOLD \<le> failures h + 1)"
  by (simp add: count_failure_def Let_def)

lemma failure_run_snd_Cons:
  "snd (failure_run t n (e # es) w) = snd (failure_run t n es (snd (recordFailure t n e w)))"
  by (simp split: prod.splits sum.splits)

lemma failure_run_invariant:
  assumes "degraded (getHandler (loadHealth w) (health_key t n))
             \<longleftrightarrow> FAILURE_THRESHOLD \<le> failures (getHandler (loadHealth w) (health_key t n))"
  shows "(degraded (getHandler (loadHealth (snd (failure_run t n errs w))) (health_key t n))
             \<longleftrightarrow> FAILURE_THRESHOLD \<le> failures (getHandler (loadHealth (snd (failure_run t n errs w))) (health_key t n)))
         \<and> failures (getHandler (loadHealth (snd (failure_run t n errs w))) (health_key t n))
             \<le> failures (getHandler (loadHealth w) (health_key t n)) + int (length errs)
         \<and> (fs_reliable w \<longrightarrow>
              failures (getHandler (loadHealth (snd (failure_run t n errs w))) (health_key t n))
                = failures (getHandler (loadHealth w) (health_key t n)) + int (length errs))"
  using assms
proof (induction errs arbitrary: w)
  case Nil
  then show ?case by simp
next
  case (Cons e errs)
  let ?w1 = "snd (recordFailure t n e w)"
  have inv1: "degraded (getHandler (loadHealth ?w1) (health_key t n))
             \<longleftrightarrow> FAILURE_THRESHOLD \<le> failures (getHandler (loadHealth ?w1) (health_key t n))"
    using Cons.prems by (auto simp: recordFailure_health count_failure_fields FAILURE_THRESHOLD_def)
  have step: "failures (getHandler (loadHealth ?w1) (health_key t n))
       \<le> failures (getHandler (loadHealth w) (health_key t n)) + 1"
    by (simp add: recordFailure_health count_failure_fields)
  have rel: "fs_reliable w \<Longrightarrow> fs_reliable ?w1 \<and>
       failures (getHandler (loadHealth ?w1) (health_key t n))
         = failures (getHandler (loadHealth w) (health_key t n)) + 1"
    using recordFailure_reliable[of w t n e] by (simp add: recordFailure_health count_failure_fields)
  from Cons.IH[OF inv1] step rel show ?case
    unfolding failure_run_snd_Cons by auto
qed

subsection \<open>The whole loop\<close>

lemma from_next_position:
  assumes "\<forall>n \<in> S. \<exists>k. i + 1 \<le> k \<and> Q k n"
  shows "\<forall>n \<in> S. \<exists>k. (i::nat) \<le> k \<and> Q k n"
proof
  fix n assume "n \<in> S"
  with assms obtain k where "i + 1 \<le> k" "Q k n" by blast
  then show "\<exists>k. i \<le> k \<and> Q k n" by (intro exI[of _ k]) simp
qed

lemma handler_loop_trace:
  "\<exists>es. trace (snd (handler_loop cfg t hs a st i le w)) = trace w @ es \<and> settled_inline es
       \<and> (\<forall>n \<in> set (invoked_names es). \<exists>k. i \<le> k \<and> k < length hs \<and> n = name (hs ! k)
             \<and> \<not> (degraded (getHandler st (health_key t (name (hs ! k)))) \<and> int k < int (length hs) - 1))"
proof (induction "length hs - i" arbitrary: i le w)
  case 0
  then have "length hs \<le> i" by simp
  then show ?case by (simp add: handler_loop_exhausted split: sum.splits)
next
  case (Suc m)
  then have i: "i < length hs" and m: "m = length hs - (i + 1)" by auto
  show ?case
  proof (cases "degraded (getHandler st (health_key t (name (hs ! i)))) \<and> int i < int (length hs) - 1")
    case True
    obtain es where es: "trace (snd (handler_loop cfg t hs a st (i + 1) le w)) = trace w @ es"
        "settled_inline es"
        "\<forall>n \<in> set (invoked_names es). \<exists>k. i + 1 \<le> k \<and> k < length hs \<and> n = name (hs ! k)
             \<and> \<not> (degraded (getHandler st (health_key t (name (hs ! k)))) \<and> int k < int (length hs) - 1)"
      using Suc.hyps(1)[OF m] by blast
    from es(3) have "\<forall>n \<in> set (invoked_names es). \<exists>k. i \<le> k \<and> k < length hs \<and> n = name (hs ! k)
             \<and> \<not> (degraded (getHandler st (health_key t (name (hs ! k)))) \<and> int k < int (length hs) - 1)"
      by (rule from_next_position)
    with es(1,2) True i show ?thesis
      by (simp add: handler_loop_skip)
  next
    case False
    note eq = handler_loop_attempt[OF i False]
    obtain r w1 where tr: "try_handler t (hs ! i) a w = (r, w1)" by (cases "try_handler t (hs ! i) a w")
    obtain es1 where es1: "trace w1 = trace w @ Invoked (name (hs ! i)) # es1" "set es1 \<subseteq> {Mkdir, Wrote}"
      using try_handler_trace[of t "hs ! i" a w] tr by auto
    note q1 = fs_events_quiet[OF es1(2)]
    show ?thesis
    proof (cases r)
      case (Inr res)
      with tr es1 q1 i False show ?thesis
        by (auto simp: eq intro!: exI[of _ i])
    next
      case (Inl err)
      obtain r2 w2 where ca: "catch_handler cfg t (hs ! i) err w1 = (r2, w2)"
        by (cases "catch_handler cfg t (hs ! i) err w1")
      obtain es2 where es2: "trace w2 = trace w1 @ es2" "invoked_names es2 = []" "settled_inline es2"
        using catch_handler_trace[of cfg t "hs ! i" err w1] ca by auto
      show ?thesis
      proof (cases r2)
        case r2: (Inl e)
        with Inl tr ca es1 es2 q1 i False show ?thesis
          by (auto simp: eq invoked_names_append settled_inline_append intro!: exI[of _ i])
      next
        case r2: (Inr u)
        obtain es3 where es3: "trace (snd (handler_loop cfg t hs a st (i + 1) (Some err) w2)) = trace w2 @ es3"
            "settled_inline es3"
            "\<forall>n \<in> set (invoked_names es3). \<exists>k. i + 1 \<le> k \<and> k < length hs \<and> n = name (hs ! k)
               \<and> \<not> (degraded (getHandler st (health_key t (name (hs ! k)))) \<and> int k < int (length hs) - 1)"
          using Suc.hyps(1)[OF m] by blast
        from es3(3) have later: "\<forall>n \<in> set (invoked_names es3). \<exists>k. i \<le> k \<and> k < length hs \<and> n = name (hs ! k)
               \<and> \<not> (degraded (getHandler st (health_key t (name (hs ! k)))) \<and> int k < int (length hs) - 1)"
          by (rule from_next_position)
        have here: "\<exists>k. i \<le> k \<and> k < length hs \<and> name (hs ! i) = name (hs ! k)
               \<and> \<not> (degraded (getHandler st (health_key t (name (hs ! k)))) \<and> int k < int (length hs) - 1)"
          using i False by (intro exI[of _ i]) simp
        have tr_eq: "trace (snd (handler_loop cfg t hs a st i le w))
            = trace w @ (Invoked (name (hs ! i)) # es1 @ es2 @ es3)"
          using Inl r2 tr ca es1 es2 es3(1) by (simp add: eq)
        have st: "settled_inline (Invoked (name (hs ! i)) # es1 @ es2 @ es3)"
          using q1 es2(3) es3(2) by (simp add: settled_inline_append)
        have inv: "invoked_names (Invoked (name (hs ! i)) # es1 @ es2 @ es3) = name (hs ! i) # invoked_names es3"
          using q1 es2(2) by (simp add: invoked_names_append)
        show ?thesis
          unfolding tr_eq using st inv here later by auto
      qed
    qed
  qed
qed


lemma try_handler_success:
  assumes "fn h a = Resolves v" and "render v = Inr txt" and "save_succeeds w"
  shows "fst (try_handler t h a w) = Inr (text_content txt)
     \<and> health_file (snd (try_handler t h a w)) = Some ((loadHealth w)(health_key t (name h) \<mapsto> healthy))
     \<and> (\<exists>es. trace (snd (try_handler t h a w)) = trace w @ Invoked (name h) # es
            \<and> set es \<subseteq> {Mkdir, Wrote} \<and> Wrote \<in> set es)"
proof -
  let ?w1 = "log_event (Invoked (name h)) w"
  let ?s = "(loadHealth w)(health_key t (name h) \<mapsto> healthy)"
  have l1: "loadHealth ?w1 = loadHealth w" and ok1: "save_succeeds ?w1"
    using assms(3) by (auto simp: loadHealth_def log_event_def save_succeeds_def split: if_splits)
  obtain r w2 where sv: "saveHealth ?s ?w1 = (r, w2)" by (cases "saveHealth ?s ?w1")
  have r: "r = Inr ()" using saveHealth_ok_iff[of ?s ?w1] ok1 sv by simp
  have hf: "health_file w2 = Some ?s" using saveHealth_file[of ?s ?w1] sv r by simp
  obtain es where es: "trace w2 = trace ?w1 @ es" "set es \<subseteq> {Mkdir, Wrote}"
    using saveHealth_trace[of ?s ?w1] sv by auto
  have "Wrote \<in> set (new_events ?w1 w2)" using saveHealth_wrote[of ?s ?w1] sv r by simp
  with es(1) have wrote: "Wrote \<in> set es" by (simp add: new_events_def)
  have "try_handler t h a w = (Inr (text_content txt), w2)"
    using assms(1,2) sv r by (simp add: try_handler_def recordSuccess_def Let_def l1)
  with hf es wrote show ?thesis by (simp add: log_event_def)
qed

lemmas loop_eval = handler_loop_attempt handler_loop_skip handler_loop_exhausted

subsection \<open>When no write fails\<close>








section \<open>The claims\<close>

text \<open>
  C1, as amended. For a handler list of length 1 the single handler is attempted exactly
  when it is not degraded in the snapshot loaded at the start of the call. When it is
  degraded the wrapper does not invoke it: it returns the \<open>[DISABLED]\<close> envelope and
  leaves the world, and so the stored record, as it was.
\<close>

theorem sole_handler_attempted_iff_healthy:
  "(degraded (getHandler (loadHealth w) (health_key toolName (name h))) \<longrightarrow>
      withResilience cfg toolName [h] args w = (Inr (text_content (disabled_text toolName)), w))
   \<and> (\<not> degraded (getHandler (loadHealth w) (health_key toolName (name h))) \<longrightarrow>
      (\<exists>es. new_events w (snd (withResilience cfg toolName [h] args w)) = Invoked (name h) # es
            \<and> invoked_names es = []))"
proof (intro conjI impI)
  assume "degraded (getHandler (loadHealth w) (health_key toolName (name h)))"
  then show "withResilience cfg toolName [h] args w = (Inr (text_content (disabled_text toolName)), w)"
    by (simp add: withResilience_def)
next
  assume nd: "\<not> degraded (getHandler (loadHealth w) (health_key toolName (name h)))"
  obtain es where "trace (snd (handler_loop cfg toolName [h] args (loadHealth w) 0 None w))
      = trace w @ Invoked (name ([h] ! 0)) # es" "invoked_names es = []"
    using handler_loop_last_trace[where i = 0 and hs = "[h]" and cfg = cfg and t = toolName and a = args
        and st = "loadHealth w" and le = None and w = w] by auto
  with nd show "\<exists>es. new_events w (snd (withResilience cfg toolName [h] args w)) = Invoked (name h) # es
            \<and> invoked_names es = []"
    by (simp add: withResilience_def new_events_def)
qed

theorem sole_handler_attempted_iff_healthy_witness:
  "degraded (getHandler (loadHealth sole_degraded_disk) ''t:a'')
   \<and> withResilience cfg0 ''t'' [succeeding ''a'' ''ok''] () sole_degraded_disk
       = (Inr (text_content (disabled_text ''t'')), sole_degraded_disk)
   \<and> \<not> degraded (getHandler (loadHealth (disk [] [] [])) ''t:a'')
   \<and> hd (new_events (disk [] [] []) (snd (withResilience cfg0 ''t'' [succeeding ''a'' ''ok''] () (disk [] [] []))))
       = Invoked ''a''"
  using sole_handler_attempted_iff_healthy [of sole_degraded_disk "''t''" "succeeding ''a'' ''ok''" cfg0 "()"]
    sole_handler_attempted_iff_healthy [of "disk [] [] []" "''t''" "succeeding ''a'' ''ok''" cfg0 "()"]
  by (auto simp: sole_degraded_disk_def loadHealth_def getHandler_def health_key_def healthy_def example_defs)

text \<open>
  C1 as stated fails: a sole handler that is stored as degraded, and that would resolve
  with \<open>ok\<close>, is not invoked; the call returns \<open>[DISABLED]\<close> and the record still has
  \<open>failures = 3\<close> and \<open>degraded = True\<close>.
\<close>

theorem sole_degraded_handler_counterexample:
  "degraded (getHandler (loadHealth sole_degraded_disk) ''t:a'')
   \<and> fn (succeeding ''a'' ''ok'') () = Resolves (JsString ''ok'')
   \<and> fst (withResilience cfg0 ''t'' [succeeding ''a'' ''ok''] () sole_degraded_disk)
        = Inr (text_content (disabled_text ''t''))
   \<and> invoked_names (new_events sole_degraded_disk
        (snd (withResilience cfg0 ''t'' [succeeding ''a'' ''ok''] () sole_degraded_disk))) = []
   \<and> degraded (getHandler (loadHealth
        (snd (withResilience cfg0 ''t'' [succeeding ''a'' ''ok''] () sole_degraded_disk))) ''t:a'')
   \<and> failures (getHandler (loadHealth
        (snd (withResilience cfg0 ''t'' [succeeding ''a'' ''ok''] () sole_degraded_disk))) ''t:a'') = 3"
  by (simp add: sole_degraded_disk_def withResilience_def loadHealth_def getHandler_def health_key_def
      new_events_def example_defs)

text \<open>
  C2 does not hold of the code. \<open>recordFailure\<close> returns \<open>h.degraded\<close>, which is true
  at every failure from the third on: five consecutive failures return
  \<open>nowDegraded = true\<close> three times. Through the wrapper: with \<open>b\<close> the last handler
  at 2 failures and both handlers failing, the first call alerts for \<open>b\<close> (third
  failure), and the second call attempts the degraded \<open>b\<close> as the last handler and
  alerts for it again, with \<open>failureCount = 3\<close> although the counter is 4.
\<close>

theorem realert_when_already_degraded:
  "fst (failure_run ''t'' ''a'' [''e1'', ''e2'', ''e3'', ''e4'', ''e5''] (disk [] [] []))
     = [False, False, True, True, True]
   \<and> alerts_sent (new_events realert_disk realert_run)
     = [\<lparr>tool = ''t:b'', error = ''eb'', failureCount = 3,
         timestamp = ''2026-01-01T00:00:00.000Z'', serverUrl = ''http://srv''\<rparr>,
        \<lparr>tool = ''t:b'', error = ''eb'', failureCount = 3,
         timestamp = ''2026-01-01T00:00:00.000Z'', serverUrl = ''http://srv''\<rparr>]
   \<and> failures (getHandler (loadHealth realert_run) ''t:b'') = 4"
  by (simp add: realert_run_def realert_disk_def realert_handlers_def facade_defs example_defs loop_eval Let_def new_events_def)




text \<open>
  C4. Let the handler at position \<open>i\<close> be degraded in the snapshot. When a handler
  exists after it, the iteration that reaches \<open>i\<close> goes on to \<open>i + 1\<close> in the same
  world with the same last error, so the handler is skipped without being invoked; and
  (handler names being distinct) its name is not among the handlers a call of the wrapper
  invokes. When it is the last handler, the iteration that reaches it invokes it; and if
  it then resolves with a value that renders, and the write succeeds, the call returns the
  rendered value and the stored record is the healthy one: a degraded last handler heals
  by a success.
\<close>

theorem degraded_skipped_iff_fallback:
  assumes "i < length handlers"
    and "degraded (getHandler state (health_key toolName (name (handlers ! i))))"
  shows "(i + 1 < length handlers \<longrightarrow>
            handler_loop cfg toolName handlers args state i lastErr w
              = handler_loop cfg toolName handlers args state (i + 1) lastErr w)
     \<and> (i + 1 < length handlers \<and> state = loadHealth w \<and> distinct (map name handlers) \<longrightarrow>
            name (handlers ! i) \<notin> set (invoked_names (new_events w
               (snd (withResilience cfg toolName handlers args w)))))
     \<and> (i + 1 = length handlers \<longrightarrow>
            (\<exists>es. new_events w (snd (handler_loop cfg toolName handlers args state i lastErr w))
                    = Invoked (name (handlers ! i)) # es))
     \<and> (i + 1 = length handlers \<and> fn (handlers ! i) args = Resolves v \<and> render v = Inr out
          \<and> save_succeeds w \<longrightarrow>
            fst (handler_loop cfg toolName handlers args state i lastErr w) = Inr (text_content out)
            \<and> getHandler (loadHealth (snd (handler_loop cfg toolName handlers args state i lastErr w)))
                 (health_key toolName (name (handlers ! i))) = healthy)"
proof -
  have skip: "handler_loop cfg toolName handlers args state i lastErr w
              = handler_loop cfg toolName handlers args state (i + 1) lastErr w"
    if "i + 1 < length handlers"
    using that assms by (simp add: handler_loop_skip)
  have never: "name (handlers ! i) \<notin> set (invoked_names (new_events w
               (snd (withResilience cfg toolName handlers args w))))"
    if a: "i + 1 < length handlers \<and> state = loadHealth w \<and> distinct (map name handlers)"
  proof (cases "list_all (\<lambda>h. degraded (getHandler (loadHealth w) (health_key toolName (name h)))) handlers")
    case True
    then show ?thesis by (simp add: withResilience_def new_events_def)
  next
    case False
    obtain es where es: "trace (snd (handler_loop cfg toolName handlers args state 0 None w)) = trace w @ es"
      "\<forall>n \<in> set (invoked_names es). \<exists>k. 0 \<le> k \<and> k < length handlers \<and> n = name (handlers ! k)
             \<and> \<not> (degraded (getHandler state (health_key toolName (name (handlers ! k)))) \<and> int k < int (length handlers) - 1)"
      using handler_loop_trace[of cfg toolName handlers args state 0 None w] by blast
    have "name (handlers ! i) \<notin> set (invoked_names es)"
    proof
      assume "name (handlers ! i) \<in> set (invoked_names es)"
      with es(2) obtain k where k: "k < length handlers" "name (handlers ! i) = name (handlers ! k)"
        "\<not> (degraded (getHandler state (health_key toolName (name (handlers ! k)))) \<and> int k < int (length handlers) - 1)"
        by blast
      from a k(1,2) assms(1) have "k = i"
        by (metis distinct_conv_nth length_map nth_map)
      with k(3) assms(2) a show False by simp
    qed
    with False es(1) a show ?thesis by (simp add: withResilience_def new_events_def)
  qed
  have attempted: "\<exists>es. new_events w (snd (handler_loop cfg toolName handlers args state i lastErr w))
                    = Invoked (name (handlers ! i)) # es"
    if "i + 1 = length handlers"
    using that handler_loop_last_trace[of i handlers cfg toolName args state lastErr w]
    by (auto simp: new_events_def)
  have heals: "fst (handler_loop cfg toolName handlers args state i lastErr w) = Inr (text_content out)
            \<and> getHandler (loadHealth (snd (handler_loop cfg toolName handlers args state i lastErr w)))
                 (health_key toolName (name (handlers ! i))) = healthy"
    if a: "i + 1 = length handlers \<and> fn (handlers ! i) args = Resolves v \<and> render v = Inr out
          \<and> save_succeeds w"
  proof -
    from a have lst: "\<not> (degraded (getHandler state (health_key toolName (name (handlers ! i)))) \<and> int i < int (length handlers) - 1)"
      by auto
    obtain w1 where w1: "try_handler toolName (handlers ! i) args w = (Inr (text_content out), w1)"
       "health_file w1 = Some ((loadHealth w)(health_key toolName (name (handlers ! i)) \<mapsto> healthy))"
      using try_handler_success[of "handlers ! i" args v out w toolName] a
      by (cases "try_handler toolName (handlers ! i) args w") auto
    then show ?thesis
      by (simp add: handler_loop_attempt[OF assms(1) lst] loadHealth_def getHandler_def)
  qed
  from skip never attempted heals show ?thesis by blast
qed


theorem degraded_skipped_iff_fallback_witness:
  "degraded (getHandler (loadHealth skip_disk) (health_key ''t'' (name (skip_handlers ! 0))))
   \<and> degraded (getHandler (loadHealth skip_disk) (health_key ''t'' (name (skip_handlers ! 2))))
   \<and> distinct (map name skip_handlers) \<and> save_succeeds skip_disk
   \<and> fn (skip_handlers ! 2) () = Resolves (JsString ''rc'')
   \<and> handler_loop cfg0 ''t'' skip_handlers () (loadHealth skip_disk) 0 None skip_disk
        = handler_loop cfg0 ''t'' skip_handlers () (loadHealth skip_disk) (0 + 1) None skip_disk
   \<and> name (skip_handlers ! 0) \<notin> set (invoked_names (new_events skip_disk
        (snd (withResilience cfg0 ''t'' skip_handlers () skip_disk))))
   \<and> (\<exists>es. new_events skip_disk (snd (handler_loop cfg0 ''t'' skip_handlers () (loadHealth skip_disk) 2 None skip_disk))
        = Invoked (name (skip_handlers ! 2)) # es)
   \<and> fst (handler_loop cfg0 ''t'' skip_handlers () (loadHealth skip_disk) 2 None skip_disk)
        = Inr (text_content ''rc'')
   \<and> getHandler (loadHealth (snd (handler_loop cfg0 ''t'' skip_handlers () (loadHealth skip_disk) 2 None skip_disk)))
        (health_key ''t'' (name (skip_handlers ! 2))) = healthy"
proof -
  have i0: "0 < length skip_handlers" and i2: "2 < length skip_handlers"
    and more: "0 + 1 < length skip_handlers" and lst: "2 + 1 = length skip_handlers"
    and dist: "distinct (map name skip_handlers)"
    and res: "fn (skip_handlers ! 2) () = Resolves (JsString ''rc'')"
    by (simp_all add: skip_handlers_def succeeding_def failing_def)
  have d0: "degraded (getHandler (loadHealth skip_disk) (health_key ''t'' (name (skip_handlers ! 0))))"
    and d2: "degraded (getHandler (loadHealth skip_disk) (health_key ''t'' (name (skip_handlers ! 2))))"
    by (simp_all add: skip_handlers_def skip_disk_def loadHealth_def getHandler_def health_key_def example_defs)
  have ok: "save_succeeds skip_disk"
    by (simp add: skip_disk_def save_succeeds_def disk_def)
  have ren: "render (JsString ''rc'') = Inr ''rc''"
    by (simp add: render_def)
  note first = degraded_skipped_iff_fallback [OF i0 d0, where cfg = cfg0 and args = "()"
      and lastErr = None and w = skip_disk]
  note final = degraded_skipped_iff_fallback [OF i2 d2, where cfg = cfg0 and args = "()"
      and lastErr = None and w = skip_disk and v = "JsString ''rc''" and out = "''rc''"]
  from first more dist have A: "handler_loop cfg0 ''t'' skip_handlers () (loadHealth skip_disk) 0 None skip_disk
        = handler_loop cfg0 ''t'' skip_handlers () (loadHealth skip_disk) (0 + 1) None skip_disk"
    and B: "name (skip_handlers ! 0) \<notin> set (invoked_names (new_events skip_disk
        (snd (withResilience cfg0 ''t'' skip_handlers () skip_disk))))"
    by blast+
  from final lst res ren ok have C: "\<exists>es. new_events skip_disk (snd (handler_loop cfg0 ''t'' skip_handlers () (loadHealth skip_disk) 2 None skip_disk))
        = Invoked (name (skip_handlers ! 2)) # es"
    and D: "fst (handler_loop cfg0 ''t'' skip_handlers () (loadHealth skip_disk) 2 None skip_disk)
        = Inr (text_content ''rc'')
     \<and> getHandler (loadHealth (snd (handler_loop cfg0 ''t'' skip_handlers () (loadHealth skip_disk) 2 None skip_disk)))
        (health_key ''t'' (name (skip_handlers ! 2))) = healthy"
    by blast+
  from d0 d2 dist ok res A B C D show ?thesis by blast
qed

text \<open>
  C5. If every handler of the list is degraded in the snapshot loaded at the start of the
  call, the wrapper returns the \<open>[DISABLED]\<close> envelope, whose text names the tool and
  says that \<open>resetTool()\<close> re-enables it, and the world is the one it started in: no
  handler has been invoked, no counter has changed, nothing has been written and no alert
  has been sent.
\<close>

theorem all_degraded_short_circuit:
  assumes "\<forall>h \<in> set handlers. degraded (getHandler (loadHealth w) (health_key toolName (name h)))"
  shows "withResilience cfg toolName handlers args w =
           (Inr (McpContent [''[DISABLED] Tool '' @ dquote @ toolName @ dquote @
               '' is temporarily disabled '' @ em_dash @
               '' all handlers are degraded. Use resetTool() to re-enable.'']), w)"
  using assms by (simp add: withResilience_def list_all_iff text_content_def disabled_text_def)

theorem all_degraded_short_circuit_witness:
  "degraded (getHandler (loadHealth (disk [(''t:a'', stored 3 True), (''t:b'', stored 5 True), (''t:c'', stored 3 True)] [] [])) ''t:a'')
   \<and> degraded (getHandler (loadHealth (disk [(''t:a'', stored 3 True), (''t:b'', stored 5 True), (''t:c'', stored 3 True)] [] [])) ''t:b'')
   \<and> degraded (getHandler (loadHealth (disk [(''t:a'', stored 3 True), (''t:b'', stored 5 True), (''t:c'', stored 3 True)] [] [])) ''t:c'')
   \<and> withResilience cfg0 ''t'' [failing ''a'' ''ea'', succeeding ''b'' ''rb'', succeeding ''c'' ''rc''] ()
        (disk [(''t:a'', stored 3 True), (''t:b'', stored 5 True), (''t:c'', stored 3 True)] [] [])
      = (Inr (McpContent [''[DISABLED] Tool '' @ dquote @ ''t'' @ dquote @
               '' is temporarily disabled '' @ em_dash @
               '' all handlers are degraded. Use resetTool() to re-enable.'']),
         disk [(''t:a'', stored 3 True), (''t:b'', stored 5 True), (''t:c'', stored 3 True)] [] [])"
  using all_degraded_short_circuit [of "[failing ''a'' ''ea'', succeeding ''b'' ''rb'', succeeding ''c'' ''rc'']"
      "disk [(''t:a'', stored 3 True), (''t:b'', stored 5 True), (''t:c'', stored 3 True)] [] []" "''t''" cfg0 "()"]
  by (simp add: loadHealth_def getHandler_def health_key_def example_defs)

text \<open>
  C6, as amended. When the iteration attempts a handler, the handler resolves with a
  value that renders as text, and the write of \<open>recordSuccess\<close> succeeds, the loop
  returns that text at once: the health file holds the old state with the handler's record
  set to \<open>failures = 0\<close>, \<open>degraded = False\<close>, the file has been written, the handler
  is the only one invoked from there on, and no alert is sent.
\<close>

theorem first_success_wins:
  assumes "i < length handlers"
    and "\<not> (degraded (getHandler state (health_key toolName (name (handlers ! i))))
            \<and> int i < int (length handlers) - 1)"
    and "fn (handlers ! i) args = Resolves v" and "render v = Inr out" and "save_succeeds w"
  shows "fst (handler_loop cfg toolName handlers args state i lastErr w) = Inr (text_content out)
     \<and> health_file (snd (handler_loop cfg toolName handlers args state i lastErr w))
          = Some ((loadHealth w)(health_key toolName (name (handlers ! i)) \<mapsto> healthy))
     \<and> failures (getHandler (loadHealth (snd (handler_loop cfg toolName handlers args state i lastErr w)))
          (health_key toolName (name (handlers ! i)))) = 0
     \<and> \<not> degraded (getHandler (loadHealth (snd (handler_loop cfg toolName handlers args state i lastErr w)))
          (health_key toolName (name (handlers ! i))))
     \<and> invoked_names (new_events w (snd (handler_loop cfg toolName handlers args state i lastErr w)))
          = [name (handlers ! i)]
     \<and> Wrote \<in> set (new_events w (snd (handler_loop cfg toolName handlers args state i lastErr w)))
     \<and> alerts_sent (new_events w (snd (handler_loop cfg toolName handlers args state i lastErr w))) = []"
proof -
  obtain w1 es where w1: "try_handler toolName (handlers ! i) args w = (Inr (text_content out), w1)"
     and hf: "health_file w1 = Some ((loadHealth w)(health_key toolName (name (handlers ! i)) \<mapsto> healthy))"
     and es: "trace w1 = trace w @ Invoked (name (handlers ! i)) # es" "set es \<subseteq> {Mkdir, Wrote}" "Wrote \<in> set es"
    using try_handler_success[OF assms(3,4,5), of toolName]
    by (cases "try_handler toolName (handlers ! i) args w") auto
  have loop: "handler_loop cfg toolName handlers args state i lastErr w = (Inr (text_content out), w1)"
    using w1 by (simp add: handler_loop_attempt[OF assms(1,2)])
  have ne: "new_events w w1 = Invoked (name (handlers ! i)) # es"
    using es(1) by (simp add: new_events_def)
  show ?thesis
    unfolding loop using hf ne es(3) fs_events_quiet[OF es(2)]
    by (simp add: loadHealth_def getHandler_def healthy_def)
qed

theorem first_success_wins_witness:
  "fn (first_handlers ! 1) () = Resolves (JsString ''rb'') \<and> save_succeeds (disk [] [] [])
   \<and> fst (handler_loop cfg0 ''t'' first_handlers () (loadHealth (disk [] [] [])) 1 None (disk [] [] []))
        = Inr (text_content ''rb'')
   \<and> invoked_names (new_events (disk [] [] [])
        (snd (handler_loop cfg0 ''t'' first_handlers () (loadHealth (disk [] [] [])) 1 None (disk [] [] []))))
        = [name (first_handlers ! 1)]
   \<and> \<not> degraded (getHandler (loadHealth
        (snd (handler_loop cfg0 ''t'' first_handlers () (loadHealth (disk [] [] [])) 1 None (disk [] [] []))))
        (health_key ''t'' (name (first_handlers ! 1))))"
proof -
  have i: "1 < length first_handlers"
    and att: "\<not> (degraded (getHandler (loadHealth (disk [] [] [])) (health_key ''t'' (name (first_handlers ! 1))))
            \<and> int 1 < int (length first_handlers) - 1)"
    and res: "fn (first_handlers ! 1) () = Resolves (JsString ''rb'')"
    and ren: "render (JsString ''rb'') = Inr ''rb''"
    and ok: "save_succeeds (disk [] [] [])"
    by (simp_all add: first_handlers_def example_defs loadHealth_def getHandler_def healthy_def
        render_def save_succeeds_def)
  from first_success_wins [OF i att res ren ok, of cfg0 None] res ok show ?thesis by blast
qed

text \<open>
  C6 as stated fails when the success cannot be recorded or rendered. Handler \<open>a\<close>
  resolves with \<open>ra\<close>; the write of \<open>recordSuccess\<close> throws \<open>EIO\<close> inside the
  \<open>try\<close>, the \<open>catch\<close> counts it as a failure of \<open>a\<close> and the later handler \<open>b\<close>
  is invoked, whose result is returned. When the write of \<open>recordFailure\<close> throws as
  well, the call throws. A result that \<open>JSON.stringify\<close> rejects goes the same way.
\<close>

theorem first_success_wins_counterexample:
  "fn (two_ok ! 0) () = Resolves (JsString ''ra'')
   \<and> fst (withResilience cfg0 ''t'' two_ok () (disk [] [Some ''EIO''] [])) = Inr (text_content ''rb'')
   \<and> invoked_names (new_events (disk [] [Some ''EIO''] [])
        (snd (withResilience cfg0 ''t'' two_ok () (disk [] [Some ''EIO''] [])))) = [''a'', ''b'']
   \<and> failures (getHandler (loadHealth
        (snd (withResilience cfg0 ''t'' two_ok () (disk [] [Some ''EIO''] [])))) ''t:a'') = 1
   \<and> fst (withResilience cfg0 ''t'' two_ok () (disk [] [Some ''EACCES'', Some ''EACCES''] []))
        = Inl (Error ''EACCES'')
   \<and> fn (bigint_then_ok ! 0) () = Resolves (JsOther (Inl (Error ''Do not know how to serialize a BigInt'')))
   \<and> fst (withResilience cfg0 ''t'' bigint_then_ok () (disk [] [] [])) = Inr (text_content ''rb'')
   \<and> invoked_names (new_events (disk [] [] [])
        (snd (withResilience cfg0 ''t'' bigint_then_ok () (disk [] [] [])))) = [''a'', ''b'']
   \<and> failures (getHandler (loadHealth
        (snd (withResilience cfg0 ''t'' bigint_then_ok () (disk [] [] [])))) ''t:a'') = 1"
  by (simp add: two_ok_def bigint_then_ok_def unrenderable_def facade_defs example_defs loop_eval Let_def new_events_def)

text \<open>
  C7. Starting from a healthy record, after any run of consecutive failures the record is
  degraded exactly when its failure counter has reached \<open>FAILURE_THRESHOLD = 3\<close>, and
  the counter is at most the number of failures. When no write fails the counter is the
  number of failures, so the record is degraded exactly when the run has 3 failures or
  more: after 1 or 2 failures it is not.
\<close>

theorem degraded_exactly_at_threshold:
  assumes "failures (getHandler (loadHealth w) (health_key t n)) = 0"
    and "\<not> degraded (getHandler (loadHealth w) (health_key t n))"
  shows "(degraded (getHandler (loadHealth (snd (failure_run t n errs w))) (health_key t n))
             \<longleftrightarrow> FAILURE_THRESHOLD \<le> failures (getHandler (loadHealth (snd (failure_run t n errs w))) (health_key t n)))
         \<and> failures (getHandler (loadHealth (snd (failure_run t n errs w))) (health_key t n)) \<le> int (length errs)
         \<and> (fs_reliable w \<longrightarrow>
              failures (getHandler (loadHealth (snd (failure_run t n errs w))) (health_key t n)) = int (length errs)
              \<and> (degraded (getHandler (loadHealth (snd (failure_run t n errs w))) (health_key t n))
                    \<longleftrightarrow> 3 \<le> length errs))"
  using failure_run_invariant[of w t n errs] assms by (auto simp: FAILURE_THRESHOLD_def)

theorem degraded_exactly_at_threshold_witness:
  "failures (getHandler (loadHealth (disk [] [] [])) (health_key ''t'' ''a'')) = 0
   \<and> \<not> degraded (getHandler (loadHealth (disk [] [] [])) (health_key ''t'' ''a''))
   \<and> fs_reliable (disk [] [] [])
   \<and> \<not> degraded (getHandler (loadHealth (snd (failure_run ''t'' ''a'' [''e1''] (disk [] [] [])))) (health_key ''t'' ''a''))
   \<and> \<not> degraded (getHandler (loadHealth (snd (failure_run ''t'' ''a'' [''e1'', ''e2''] (disk [] [] [])))) (health_key ''t'' ''a''))
   \<and> degraded (getHandler (loadHealth (snd (failure_run ''t'' ''a'' [''e1'', ''e2'', ''e3''] (disk [] [] [])))) (health_key ''t'' ''a''))
   \<and> failures (getHandler (loadHealth (snd (failure_run ''t'' ''a'' [''e1'', ''e2'', ''e3''] (disk [] [] [])))) (health_key ''t'' ''a'')) = 3"
proof -
  have h1: "failures (getHandler (loadHealth (disk [] [] [])) (health_key ''t'' ''a'')) = 0"
    and h2: "\<not> degraded (getHandler (loadHealth (disk [] [] [])) (health_key ''t'' ''a''))"
    and h3: "fs_reliable (disk [] [] [])"
    by (simp_all add: loadHealth_def getHandler_def healthy_def fs_reliable_def disk_def)
  show ?thesis
    using h1 h2 h3
      degraded_exactly_at_threshold [OF h1 h2, of "[''e1'']"]
      degraded_exactly_at_threshold [OF h1 h2, of "[''e1'', ''e2'']"]
      degraded_exactly_at_threshold [OF h1 h2, of "[''e1'', ''e2'', ''e3'']"]
    by (auto simp del: failure_run.simps)
qed

text \<open>
  C8, as amended. \<open>alertN8n\<close> never throws and leaves the health file alone; without a
  webhook URL it does nothing; with one it sends exactly one request, and a request that
  fails is logged with \<open>console.error\<close> and not sent again. The wrapper awaits the
  alert: in the events of a call every request is settled before anything else happens.
\<close>

theorem alert_contained_and_awaited:
  "fst (alertN8n cfg k e c w) = Inr ()
   \<and> health_file (snd (alertN8n cfg k e c w)) = health_file w
   \<and> (N8N_ALERT_WEBHOOK_URL cfg = [] \<longrightarrow> alertN8n cfg k e c w = (Inr (), w))
   \<and> (N8N_ALERT_WEBHOOK_URL cfg \<noteq> [] \<longrightarrow>
        alerts_sent (new_events w (snd (alertN8n cfg k e c w)))
          = [\<lparr>tool = k, error = e, failureCount = c, timestamp = now w, serverUrl = SERVER_URL cfg\<rparr>])
   \<and> (N8N_ALERT_WEBHOOK_URL cfg \<noteq> [] \<and> fetch_faults w = Some m # rest \<longrightarrow>
        new_events w (snd (alertN8n cfg k e c w))
          = [FetchSent \<lparr>tool = k, error = e, failureCount = c, timestamp = now w, serverUrl = SERVER_URL cfg\<rparr>,
             FetchSettled False,
             ConsoleError (''[resilience] Failed to alert n8n: '' @ m)])
   \<and> settled_inline (new_events w' (snd (withResilience cfg toolName handlers args w')))"
proof -
  have hf: "health_file (snd (alertN8n cfg k e c w)) = health_file w"
    by (auto simp: alertN8n_def fetch_def Let_def log_event_def split: prod.splits sum.splits list.splits option.splits)
  have noop: "alertN8n cfg k e c w = (Inr (), w)" if "N8N_ALERT_WEBHOOK_URL cfg = []"
    using that by (simp add: alertN8n_def)
  have once: "alerts_sent (new_events w (snd (alertN8n cfg k e c w)))
          = [\<lparr>tool = k, error = e, failureCount = c, timestamp = now w, serverUrl = SERVER_URL cfg\<rparr>]"
    if "N8N_ALERT_WEBHOOK_URL cfg \<noteq> []"
    using that by (simp add: new_events_def alertN8n_events Let_def split: sum.splits)
  have logged: "new_events w (snd (alertN8n cfg k e c w))
          = [FetchSent \<lparr>tool = k, error = e, failureCount = c, timestamp = now w, serverUrl = SERVER_URL cfg\<rparr>,
             FetchSettled False,
             ConsoleError (''[resilience] Failed to alert n8n: '' @ m)]"
    if "N8N_ALERT_WEBHOOK_URL cfg \<noteq> [] \<and> fetch_faults w = Some m # rest"
    using that
    by (simp add: new_events_def alertN8n_events Let_def fetch_def log_event_def console_text_def)
  have awaited: "settled_inline (new_events w' (snd (withResilience cfg toolName handlers args w')))"
  proof (cases "list_all (\<lambda>h. degraded (getHandler (loadHealth w') (health_key toolName (name h)))) handlers")
    case True
    then show ?thesis by (simp add: withResilience_def new_events_def)
  next
    case False
    obtain es where "trace (snd (handler_loop cfg toolName handlers args (loadHealth w') 0 None w')) = trace w' @ es"
      "settled_inline es"
      using handler_loop_trace[of cfg toolName handlers args "loadHealth w'" 0 None w'] by blast
    with False show ?thesis by (simp add: withResilience_def new_events_def)
  qed
  from alertN8n_never_throws[of cfg k e c w] hf noop once logged awaited show ?thesis by blast
qed

theorem alert_contained_and_awaited_witness:
  "N8N_ALERT_WEBHOOK_URL no_webhook = []
   \<and> alertN8n no_webhook ''t:a'' ''ea'' 3 await_disk = (Inr (), await_disk)
   \<and> N8N_ALERT_WEBHOOK_URL cfg0 \<noteq> []
   \<and> fetch_faults await_disk = Some ''ECONNREFUSED'' # []
   \<and> alerts_sent (new_events await_disk (snd (alertN8n cfg0 ''t:a'' ''ea'' 3 await_disk)))
       = [\<lparr>tool = ''t:a'', error = ''ea'', failureCount = 3, timestamp = now await_disk, serverUrl = SERVER_URL cfg0\<rparr>]
   \<and> new_events await_disk (snd (alertN8n cfg0 ''t:a'' ''ea'' 3 await_disk))
       = [FetchSent \<lparr>tool = ''t:a'', error = ''ea'', failureCount = 3, timestamp = now await_disk, serverUrl = SERVER_URL cfg0\<rparr>,
          FetchSettled False,
          ConsoleError (''[resilience] Failed to alert n8n: '' @ ''ECONNREFUSED'')]"
proof -
  have u0: "N8N_ALERT_WEBHOOK_URL no_webhook = []" and u1: "N8N_ALERT_WEBHOOK_URL cfg0 \<noteq> []"
    and ff: "fetch_faults await_disk = Some ''ECONNREFUSED'' # []"
    by (simp_all add: no_webhook_def cfg0_def await_disk_def disk_def)
  from alert_contained_and_awaited [of no_webhook "''t:a''" "''ea''" 3 await_disk
      "''ECONNREFUSED''" "[]" await_disk "''t''" await_handlers "()"]
    alert_contained_and_awaited [of cfg0 "''t:a''" "''ea''" 3 await_disk
      "''ECONNREFUSED''" "[]" await_disk "''t''" await_handlers "()"]
    u0 u1 ff
  show ?thesis by simp
qed

text \<open>
  C8 as stated fails in its first part: the wrapper does \<open>await alertN8n(...)\<close>. Handler
  \<open>a\<close> fails for the third time and the request to the webhook is refused: the request
  settles and the failure is logged before handler \<open>b\<close> is invoked and before the
  result is returned.
\<close>

theorem alert_awaited_counterexample:
  "new_events await_disk (snd (withResilience cfg0 ''t'' await_handlers () await_disk))
     = [Invoked ''a'', Wrote,
        FetchSent \<lparr>tool = ''t:a'', error = ''ea'', failureCount = 3,
                   timestamp = ''2026-01-01T00:00:00.000Z'', serverUrl = ''http://srv''\<rparr>,
        FetchSettled False,
        ConsoleError ''[resilience] Failed to alert n8n: ECONNREFUSED'',
        Invoked ''b'', Wrote]
   \<and> fst (withResilience cfg0 ''t'' await_handlers () await_disk) = Inr (text_content ''rb'')"
  by (simp add: await_disk_def await_handlers_def facade_defs example_defs loop_eval Let_def new_events_def)

text \<open>
  C9. \<open>resetTool\<close> is idempotent: after two calls in a row the health file is the one
  a single call leaves. A call that returns leaves the healthy record under the key; a
  record that was healthy (no failures, not degraded) is healthy afterwards, whether the
  write succeeded or not; and the records under the other keys read as before.
\<close>

theorem resetTool_idempotent:
  "health_file (snd (resetTool_twice t n w)) = health_file (snd (resetTool t n w))
   \<and> (fst (resetTool t n w) = Inr () \<longrightarrow>
        getHandler (loadHealth (snd (resetTool t n w))) (health_key t n) = healthy)
   \<and> (failures (getHandler (loadHealth w) (health_key t n)) = 0
        \<and> \<not> degraded (getHandler (loadHealth w) (health_key t n)) \<longrightarrow>
        failures (getHandler (loadHealth (snd (resetTool t n w))) (health_key t n)) = 0
        \<and> \<not> degraded (getHandler (loadHealth (snd (resetTool t n w))) (health_key t n)))
   \<and> (\<forall>k. k \<noteq> health_key t n \<longrightarrow>
        getHandler (loadHealth (snd (resetTool t n w))) k = getHandler (loadHealth w) k)"
proof -
  let ?s = "(loadHealth w)(health_key t n \<mapsto> healthy)"
  obtain r w1 where sv: "saveHealth ?s w = (r, w1)" by (cases "saveHealth ?s w")
  have file1: "health_file w1 = (if r = Inr () then Some ?s else health_file w)"
    using saveHealth_file[of ?s w] sv by simp
  have twice: "health_file (snd (resetTool_twice t n w)) = health_file w1"
  proof (cases r)
    case (Inl e)
    with sv show ?thesis by (simp add: resetTool_twice_def resetTool_eq)
  next
    case (Inr u)
    with file1 have l1: "loadHealth w1 = ?s" by (simp add: loadHealth_def)
    from Inr sv file1 show ?thesis
      by (simp add: resetTool_twice_def resetTool_eq l1 saveHealth_file)
  qed
  have load1: "loadHealth w1 = (if r = Inr () then ?s else loadHealth w)"
    using file1 by (simp add: loadHealth_def)
  show ?thesis
    using twice sv load1 by (auto simp: resetTool_eq getHandler_def healthy_def)
qed

theorem resetTool_idempotent_witness:
  "health_file (snd (resetTool_twice ''t'' ''a'' (disk [(''t:a'', stored 3 True)] [] [])))
     = health_file (snd (resetTool ''t'' ''a'' (disk [(''t:a'', stored 3 True)] [] [])))
   \<and> fst (resetTool ''t'' ''a'' (disk [(''t:a'', stored 3 True)] [] [])) = Inr ()
   \<and> getHandler (loadHealth (snd (resetTool ''t'' ''a'' (disk [(''t:a'', stored 3 True)] [] [])))) ''t:a'' = healthy
   \<and> failures (getHandler (loadHealth (disk [] [] [])) ''t:a'') = 0
   \<and> \<not> degraded (getHandler (loadHealth (disk [] [] [])) ''t:a'')
   \<and> failures (getHandler (loadHealth (snd (resetTool ''t'' ''a'' (disk [] [] [])))) ''t:a'') = 0
   \<and> \<not> degraded (getHandler (loadHealth (snd (resetTool ''t'' ''a'' (disk [] [] [])))) ''t:a'')
   \<and> getHandler (loadHealth (snd (resetTool ''t'' ''a'' (disk [(''t:b'', stored 2 False)] [] [])))) ''t:b''
       = getHandler (loadHealth (disk [(''t:b'', stored 2 False)] [] [])) ''t:b''"
  using resetTool_idempotent [of "''t''" "''a''" "disk [(''t:a'', stored 3 True)] [] []"]
    resetTool_idempotent [of "''t''" "''a''" "disk [] [] []"]
    resetTool_idempotent [of "''t''" "''a''" "disk [(''t:b'', stored 2 False)] [] []"]
  by (simp add: resetTool_eq health_key_def loadHealth_def getHandler_def healthy_def example_defs fs_defs)

text \<open>
  C10. With an empty handler list the all-degraded check holds vacuously: the wrapper
  returns the \<open>[DISABLED]\<close> envelope in an unchanged world, whatever the health file
  holds, and the envelope is the one a list of degraded handlers gets.
\<close>

theorem empty_handler_list_disabled:
  "withResilience cfg toolName [] args w = (Inr (text_content (disabled_text toolName)), w)
   \<and> ((\<forall>h \<in> set handlers. degraded (getHandler (loadHealth w') (health_key toolName (name h))))
        \<longrightarrow> fst (withResilience cfg toolName handlers args' w') = fst (withResilience cfg toolName [] args w))"
  by (simp add: withResilience_def list_all_iff)

theorem empty_handler_list_disabled_witness:
  "withResilience cfg0 ''t'' [] () (disk [] [] []) = (Inr (text_content (disabled_text ''t'')), disk [] [] [])
   \<and> degraded (getHandler (loadHealth (disk [(''t:a'', stored 3 True)] [] [])) ''t:a'')
   \<and> fst (withResilience cfg0 ''t'' [succeeding ''a'' ''ok''] () (disk [(''t:a'', stored 3 True)] [] []))
       = fst (withResilience cfg0 ''t'' [] () (disk [] [] []))"
  using empty_handler_list_disabled [of cfg0 "''t''" "()" "disk [] [] []" "[succeeding ''a'' ''ok'']"
      "disk [(''t:a'', stored 3 True)] [] []" "()"]
  by (simp add: loadHealth_def getHandler_def health_key_def example_defs)

end
